theory Spec2Isabelle
  imports Main "HOL-Library.List_Lexorder" "HOL-Library.Multiset"
begin

section \<open>The FDA device recall reporter (ai_reporter.py)\<close>

text \<open>
  The script is a straight line of five stages: load two credentials, fetch one page of
  recall records, aggregate them with pandas, send a text summary to a chat completion
  service, and write the reply to \<^verbatim>\<open>03_query_ai/report.md\<close>. Every stage can raise; a
  raised exception ends the run. The embedding follows the script line by line: a raising
  expression becomes a value \<open>Inl e\<close> of a sum type, the two network calls and the file
  write are recorded in an explicit \<open>world\<close>, and the pandas calls are given the meaning
  the library documents for them.
\<close>

subsection \<open>Python values\<close>

text \<open>
  A Python \<^verbatim>\<open>str\<close> is a sequence of code points, and \<^verbatim>\<open>len\<close>, slicing and
  comparison all work on code points. A code point is a natural number here; the order on
  \<open>pystr\<close> is the lexicographic one, which is Python's order on \<^verbatim>\<open>str\<close>.
\<close>

type_synonym pystr = "nat list"

definition lit :: "string \<Rightarrow> pystr" where
  "lit s = map of_char s"

definition nl :: pystr where
  "nl = [10]"

text \<open>\<^verbatim>\<open>str(n)\<close> for a non-negative integer: its decimal digits.\<close>

function str_nat :: "nat \<Rightarrow> pystr" where
  "str_nat n = (if n < 10 then [48 + n] else str_nat (n div 10) @ [48 + n mod 10])"
  by pat_completeness auto
termination
  by (relation "measure (\<lambda>n. n)") auto

text \<open>The exceptions the script can end with, each named after the Python class raised.\<close>

datatype exn =
    ValueError string        \<comment> \<open>lines 31 and 33; the argument names the missing variable\<close>
  | ConnectionError          \<comment> \<open>\<^verbatim>\<open>requests.get\<close> or \<^verbatim>\<open>requests.post\<close> got no response\<close>
  | FDA_request_failed int   \<comment> \<open>line 57: \<^verbatim>\<open>Exception("FDA API request failed with status ...")\<close>\<close>
  | JSONDecodeError          \<comment> \<open>\<^verbatim>\<open>.json()\<close> on a body that is not JSON\<close>
  | KeyError string          \<comment> \<open>a missing dict key or DataFrame column\<close>
  | IndexError
  | TypeError
  | AttributeError           \<comment> \<open>\<^verbatim>\<open>.str\<close> on a column that holds no strings\<close>
  | HTTPError int            \<comment> \<open>line 212: \<^verbatim>\<open>raise_for_status\<close>\<close>
  | OSError                  \<comment> \<open>line 233: \<^verbatim>\<open>open\<close> failed\<close>

subsection \<open>Records and the DataFrame\<close>

text \<open>
  A fetched record is a parsed JSON object, a list of fields with their values. Of its
  fields the script reads only the seven of \<open>cols_of_interest\<close>; each is a JSON
  string, JSON null, or not there. Lookup is \<open>map_of\<close>.
\<close>

datatype jvalue = JNull | JStr pystr

type_synonym recall = "(string \<times> jvalue) list"

text \<open>
  A DataFrame cell: a string, Python's \<^verbatim>\<open>None\<close> (from a JSON null), or the float
  \<^verbatim>\<open>nan\<close> that pandas stores where a record has no value for a column. Strings
  are held in object columns, as pandas 1 and 2 do by default.
\<close>

datatype cell = Str pystr | NoneV | NaN

record dataframe =
  nrows :: nat
  cols :: "(string \<times> cell list) list"

definition cell_of :: "recall \<Rightarrow> string \<Rightarrow> cell" where
  "cell_of r c = (case map_of r c of None \<Rightarrow> NaN | Some JNull \<Rightarrow> NoneV | Some (JStr s) \<Rightarrow> Str s)"

fun is_Str :: "cell \<Rightarrow> bool" where
  "is_Str (Str s) = True"
| "is_Str _ = False"

text \<open>
  The constructor infers each column's type: a column with a string in it stays an object
  column and keeps its cells; a column of \<^verbatim>\<open>None\<close> and \<^verbatim>\<open>nan\<close> only becomes a
  float64 column of \<^verbatim>\<open>nan\<close>; a column of \<^verbatim>\<open>None\<close> only stays an object column.
\<close>

definition maybe_convert_objects :: "cell list \<Rightarrow> cell list" where
  "maybe_convert_objects xs =
     (if list_ex is_Str xs then xs
      else if NaN \<in> set xs then map (\<lambda>_. NaN) xs
      else xs)"

text \<open>
  Line 65, \<^verbatim>\<open>pd.DataFrame(data["results"])\<close>: one row per record, one column per key
  that occurs in some record. The order of the columns plays no part in the script.
\<close>

definition DataFrame :: "recall list \<Rightarrow> dataframe" where
  "DataFrame rs =
     \<lparr> nrows = length rs,
       cols = map (\<lambda>c. (c, maybe_convert_objects (map (\<lambda>r. cell_of r c) rs)))
                  (remdups (concat (map (map fst) rs))) \<rparr>"

definition columns :: "dataframe \<Rightarrow> string list" where
  "columns df = map fst (cols df)"

text \<open>\<^verbatim>\<open>df[c]\<close> raises KeyError for a column that is not there.\<close>

definition getitem :: "dataframe \<Rightarrow> string \<Rightarrow> exn + cell list" where
  "getitem df c = (case map_of (cols df) c of None \<Rightarrow> Inl (KeyError c) | Some v \<Rightarrow> Inr v)"

text \<open>\<^verbatim>\<open>df[c] = v\<close> adds the column, or replaces it.\<close>

definition setitem :: "dataframe \<Rightarrow> string \<Rightarrow> cell list \<Rightarrow> dataframe" where
  "setitem df c v =
     (if c \<in> set (columns df)
      then df\<lparr>cols := map (\<lambda>(c', v'). if c' = c then (c', v) else (c', v')) (cols df)\<rparr>
      else df\<lparr>cols := cols df @ [(c, v)]\<rparr>)"

definition cols_of_interest :: "string list" where
  "cols_of_interest =
     [''recall_number'', ''event_date_initiated'', ''product_code'',
      ''root_cause_description'', ''recalling_firm'', ''recall_status'',
      ''product_description'']"

text \<open>Line 85.\<close>

definition existing_cols :: "dataframe \<Rightarrow> string list" where
  "existing_cols recalls = filter (\<lambda>c. c \<in> set (columns recalls)) cols_of_interest"

text \<open>
  Line 86, \<^verbatim>\<open>recalls[existing_cols].copy()\<close>: the listed columns, in the listed order.
  A listed column that is not there raises KeyError.
\<close>

fun select_cols :: "dataframe \<Rightarrow> string list \<Rightarrow> exn + (string \<times> cell list) list" where
  "select_cols df [] = Inr []"
| "select_cols df (c # cs) =
     (case getitem df c of
        Inl e \<Rightarrow> Inl e
      | Inr v \<Rightarrow> (case select_cols df cs of Inl e \<Rightarrow> Inl e | Inr rest \<Rightarrow> Inr ((c, v) # rest)))"

definition getitem_list :: "dataframe \<Rightarrow> string list \<Rightarrow> exn + dataframe" where
  "getitem_list df cs =
     (case select_cols df cs of Inl e \<Rightarrow> Inl e | Inr sel \<Rightarrow> Inr \<lparr>nrows = nrows df, cols = sel\<rparr>)"

subsection \<open>Grouping, sorting, head\<close>

type_synonym table = "(pystr \<times> nat) list"

fun str_values :: "cell list \<Rightarrow> pystr list" where
  "str_values [] = []"
| "str_values (Str s # xs) = s # str_values xs"
| "str_values (NoneV # xs) = str_values xs"
| "str_values (NaN # xs) = str_values xs"

text \<open>
  \<^verbatim>\<open>.groupby(c).size().reset_index(name="count")\<close> on the column \<open>c\<close>: one row per
  distinct key with the number of rows having it. \<^verbatim>\<open>groupby\<close> drops the rows whose key
  is \<^verbatim>\<open>None\<close> or \<^verbatim>\<open>nan\<close> (\<^verbatim>\<open>dropna=True\<close>) and orders the groups by key
  (\<^verbatim>\<open>sort=True\<close>).
\<close>

definition groupby_size :: "cell list \<Rightarrow> table" where
  "groupby_size col =
     (let keys = str_values col
      in map (\<lambda>k. (k, count_list keys k)) (sort (remdups keys)))"

text \<open>
  \<^verbatim>\<open>.sort_values("count", ascending=False)\<close> is called with the default
  \<^verbatim>\<open>kind="quicksort"\<close>, which promises a reordering of the rows with the counts
  non-increasing and nothing about rows of equal count. The sort is therefore a parameter
  \<open>sv\<close> of the model, and \<open>sort_values_contract\<close> is what pandas promises of it.
\<close>

definition sort_values_contract :: "(table \<Rightarrow> table) \<Rightarrow> bool" where
  "sort_values_contract sv \<longleftrightarrow>
     (\<forall>t. mset (sv t) = mset t \<and> sorted_wrt (\<lambda>a b. snd b \<le> snd a) (sv t))"

text \<open>
  One sort that keeps the contract: the stable one, under which rows of equal count stay
  in the order they had. It shows that the contract can be kept, and the examples are run
  with it. It is not taken to be the script's sort: pandas leaves the order of rows of
  equal count open, and every statement about the script is made for all sorts that keep
  the contract.
\<close>

definition sort_values_stable :: "table \<Rightarrow> table" where
  "sort_values_stable t = rev (sort_key snd (rev t))"

text \<open>\<^verbatim>\<open>.sort_values("month")\<close>: ascending by key. The keys of a grouped table are distinct,
  so every sorting kernel gives the same result.\<close>

definition sort_values_month :: "table \<Rightarrow> table" where
  "sort_values_month t = sort_key fst t"

definition head :: "nat \<Rightarrow> 'a list \<Rightarrow> 'a list" where
  "head n xs = take n xs"

text \<open>
  \<^verbatim>\<open>.str[:7]\<close>: the accessor raises AttributeError on a float64 column; on an object
  column a string is sliced and \<^verbatim>\<open>None\<close> and \<^verbatim>\<open>nan\<close> give \<^verbatim>\<open>nan\<close>.
\<close>

definition is_float64 :: "cell list \<Rightarrow> bool" where
  "is_float64 col \<longleftrightarrow> col \<noteq> [] \<and> list_all (\<lambda>x. x = NaN) col"

definition str_slice7 :: "cell list \<Rightarrow> exn + cell list" where
  "str_slice7 col =
     (if is_float64 col then Inl AttributeError
      else Inr (map (\<lambda>x. case x of Str s \<Rightarrow> Str (take 7 s) | NoneV \<Rightarrow> NaN | NaN \<Rightarrow> NaN) col))"

subsection \<open>Section 2 of the script: process the data\<close>

record processed =
  recalls_clean :: dataframe
  root_cause_counts :: table
  monthly_counts :: table
  firm_counts :: table
  status_counts :: table

text \<open>Sequencing of raising expressions: an exception skips everything after it.\<close>

fun andthen :: "exn + 'a \<Rightarrow> ('a \<Rightarrow> exn + 'b) \<Rightarrow> exn + 'b" where
  "andthen (Inl e) f = Inl e"
| "andthen (Inr v) f = f v"

text \<open>Lines 85 to 120, in the script's order; the first raising line ends the stage.\<close>

definition process_data :: "(table \<Rightarrow> table) \<Rightarrow> dataframe \<Rightarrow> exn + processed" where
  "process_data sv recalls =
     andthen (getitem_list recalls (existing_cols recalls)) (\<lambda>clean.
     andthen (getitem clean ''root_cause_description'') (\<lambda>rc.
     andthen (getitem clean ''event_date_initiated'') (\<lambda>dates.
     andthen (str_slice7 dates) (\<lambda>month.
     andthen (getitem (setitem clean ''month'' month) ''recalling_firm'') (\<lambda>firm.
     andthen (getitem (setitem clean ''month'' month) ''recall_status'') (\<lambda>status.
       Inr \<lparr> recalls_clean = setitem clean ''month'' month,
             root_cause_counts = head 10 (sv (groupby_size rc)),
             monthly_counts = sort_values_month (groupby_size month),
             firm_counts = head 10 (sv (groupby_size firm)),
             status_counts = sv (groupby_size status) \<rparr>))))))"

subsection \<open>Section 2.3: the text summary\<close>

definition df_head :: "nat \<Rightarrow> dataframe \<Rightarrow> dataframe" where
  "df_head n df = \<lparr> nrows = min n (nrows df), cols = map (\<lambda>(c, v). (c, head n v)) (cols df) \<rparr>"

text \<open>\<^verbatim>\<open>iterrows\<close>: each row as a mapping from column name to cell.\<close>

definition iterrows :: "dataframe \<Rightarrow> (string \<times> cell) list list" where
  "iterrows df = map (\<lambda>i. map (\<lambda>(c, v). (c, v ! i)) (cols df)) [0..<nrows df]"

definition row_get :: "(string \<times> cell) list \<Rightarrow> string \<Rightarrow> cell \<Rightarrow> cell" where
  "row_get row c dflt = (case map_of row c of None \<Rightarrow> dflt | Some x \<Rightarrow> x)"

text \<open>What an f-string prints for a cell.\<close>

fun py_str :: "cell \<Rightarrow> pystr" where
  "py_str (Str s) = s"
| "py_str NoneV = lit ''None''"
| "py_str NaN = lit ''nan''"

text \<open>Lines 150 and 151.\<close>

fun truncate_desc :: "cell \<Rightarrow> cell" where
  "truncate_desc (Str s) = (if length s > 200 then Str (take 200 s @ lit ''...'') else Str s)"
| "truncate_desc NoneV = NoneV"
| "truncate_desc NaN = NaN"

text \<open>Lines 148 to 152: the text one row adds to the summary.\<close>

definition sample_desc :: "(string \<times> cell) list \<Rightarrow> pystr" where
  "sample_desc row = py_str (truncate_desc (row_get row ''product_description'' (Str (lit ''N/A''))))"

definition sample_line :: "(string \<times> cell) list \<Rightarrow> pystr" where
  "sample_line row = lit ''- '' @ sample_desc row @ nl"

definition sample_lines :: "dataframe \<Rightarrow> pystr list" where
  "sample_lines clean = map sample_line (iterrows (df_head 5 clean))"

text \<open>
  Lines 126 to 152. \<^verbatim>\<open>DataFrame.to_string(index=False)\<close> is pandas' table layout; it is
  the parameter \<open>to_string\<close>, given the name of the key column and the table.
\<close>

definition data_summary :: "(string \<Rightarrow> table \<Rightarrow> pystr) \<Rightarrow> processed \<Rightarrow> pystr" where
  "data_summary to_string p =
     nl @ lit ''FDA DEVICE RECALL DATA - 2024 SUMMARY'' @ nl
     @ lit ''======================================'' @ nl
     @ lit ''Total Recalls: '' @ str_nat (nrows (recalls_clean p)) @ nl
     @ nl
     @ lit ''TOP 10 ROOT CAUSES:'' @ nl
     @ to_string ''root_cause_description'' (root_cause_counts p) @ nl
     @ nl
     @ lit ''MONTHLY RECALL COUNTS:'' @ nl
     @ to_string ''month'' (monthly_counts p) @ nl
     @ nl
     @ lit ''TOP 10 RECALLING FIRMS:'' @ nl
     @ to_string ''recalling_firm'' (firm_counts p) @ nl
     @ nl
     @ lit ''RECALL STATUS BREAKDOWN:'' @ nl
     @ to_string ''recall_status'' (status_counts p) @ nl
     @ nl
     @ lit ''SAMPLE PRODUCT DESCRIPTIONS (first 5):'' @ nl
     @ concat (sample_lines (recalls_clean p))"

definition prompt :: "pystr \<Rightarrow> pystr" where
  "prompt summary =
     lit ''You are a data analyst generating a brief executive report on FDA device recalls.'' @ nl
     @ nl
     @ lit ''Based on the following 2024 FDA device recall data, generate a concise report with these sections:'' @ nl
     @ nl
     @ lit ''1. **Overview**: A 2-3 sentence summary of the overall recall landscape for 2024.'' @ nl
     @ lit ''2. **Key Trends**: 3-5 bullet points identifying the most notable trends (monthly patterns, common root causes, frequent recalling firms).'' @ nl
     @ lit ''3. **Top Concerns**: 2-3 bullet points highlighting the most significant root causes or product categories that warrant attention.'' @ nl
     @ lit ''4. **Recommendations**: 2-3 bullet points suggesting actions for device manufacturers or regulators based on the data.'' @ nl
     @ nl
     @ lit ''Keep the total report under 300 words. Use clear, professional language suitable for a regulatory audience.'' @ nl
     @ nl
     @ lit ''DATA:'' @ nl
     @ summary @ nl"

subsection \<open>The two services and the report file\<close>

text \<open>
  \<^verbatim>\<open>os.getenv\<close> gives \<^verbatim>\<open>None\<close> for a variable that is not set; \<^verbatim>\<open>not x\<close> holds
  of \<^verbatim>\<open>None\<close> and of the empty string.
\<close>

record environ =
  API_KEY :: "pystr option"
  OPENAI_API_KEY :: "pystr option"

fun py_not :: "pystr option \<Rightarrow> bool" where
  "py_not None = True"
| "py_not (Some s) = (s = [])"

fun key_text :: "pystr option \<Rightarrow> pystr" where
  "key_text None = []"
| "key_text (Some s) = s"

text \<open>
  The reply of the recall database: its status code and what lines 64 and 65 make of its
  body, the records of \<^verbatim>\<open>data["results"]\<close> or the exception that parsing raises.
\<close>

record fda_response =
  fda_status :: int
  fda_results :: "exn + recall list"

text \<open>The reply of the completion service: its status code and its body, if that is JSON.\<close>

datatype json =
    Null
  | Bool bool
  | Num int
  | String pystr
  | Array "json list"
  | Object "(pystr \<times> json) list"

record ai_response =
  ai_status :: int
  ai_json :: "json option"

text \<open>\<^verbatim>\<open>x[k]\<close> for a string key \<open>k\<close>, and \<^verbatim>\<open>x[0]\<close>.\<close>

fun subscript_key :: "json \<Rightarrow> string \<Rightarrow> exn + json" where
  "subscript_key (Object kv) k =
     (case map_of kv (lit k) of None \<Rightarrow> Inl (KeyError k) | Some v \<Rightarrow> Inr v)"
| "subscript_key _ k = Inl TypeError"

fun subscript_0 :: "json \<Rightarrow> exn + json" where
  "subscript_0 (Array []) = Inl IndexError"
| "subscript_0 (Array (x # xs)) = Inr x"
| "subscript_0 (String []) = Inl IndexError"
| "subscript_0 (String (c # cs)) = Inr (String [c])"
| "subscript_0 (Object kv) = Inl (KeyError ''0'')"
| "subscript_0 _ = Inl TypeError"

text \<open>Lines 56 to 65, once \<^verbatim>\<open>requests.get\<close> has returned or raised.\<close>

definition fetched :: "exn + fda_response \<Rightarrow> exn + recall list" where
  "fetched reply =
     andthen reply (\<lambda>response.
       if fda_status response \<noteq> 200 then Inl (FDA_request_failed (fda_status response))
       else fda_results response)"

text \<open>
  Lines 212 to 220, once \<^verbatim>\<open>requests.post\<close> has returned or raised.
  \<^verbatim>\<open>raise_for_status\<close> raises for the status codes 400 to 599.
\<close>

definition generated :: "exn + ai_response \<Rightarrow> exn + json" where
  "generated reply =
     andthen reply (\<lambda>response.
       if 400 \<le> ai_status response \<and> ai_status response < 600
       then Inl (HTTPError (ai_status response))
       else case ai_json response of
              None \<Rightarrow> Inl JSONDecodeError
            | Some result \<Rightarrow>
                andthen (subscript_key result ''choices'') (\<lambda>choices.
                andthen (subscript_0 choices) (\<lambda>choice.
                andthen (subscript_key choice ''message'') (\<lambda>message.
                  subscript_key message ''content''))))"

text \<open>
  What the script does to its surroundings: the requests it has sent, in order, and the
  contents of \<^verbatim>\<open>03_query_ai/report.md\<close> (\<open>None\<close>: no such file). \<open>can_open\<close> says
  whether \<^verbatim>\<open>open(..., "w")\<close> succeeds.
\<close>

datatype request =
    GET_recall pystr         \<comment> \<open>the recall query, with the API key\<close>
  | POST_chat pystr pystr    \<comment> \<open>the completion request: the API key and the prompt\<close>

record world =
  requests_sent :: "request list"
  report_md :: "pystr option"
  can_open :: bool

definition send :: "request \<Rightarrow> world \<Rightarrow> world" where
  "send r w = w\<lparr>requests_sent := requests_sent w @ [r]\<rparr>"

text \<open>
  Lines 233 and 234. Opening for writing empties the file; \<^verbatim>\<open>f.write\<close> takes a
  \<^verbatim>\<open>str\<close> and raises TypeError for anything else.
\<close>

fun save_report :: "json \<Rightarrow> world \<Rightarrow> world \<times> (exn + unit)" where
  "save_report (String s) w =
     (if can_open w then (w\<lparr>report_md := Some s\<rparr>, Inr ()) else (w, Inl OSError))"
| "save_report other w =
     (if can_open w then (w\<lparr>report_md := Some []\<rparr>, Inl TypeError) else (w, Inl OSError))"

subsection \<open>The whole script\<close>

definition main ::
  "(table \<Rightarrow> table) \<Rightarrow> (string \<Rightarrow> table \<Rightarrow> pystr) \<Rightarrow> environ \<Rightarrow>
   exn + fda_response \<Rightarrow> exn + ai_response \<Rightarrow> world \<Rightarrow> world \<times> (exn + unit)" where
  "main sv to_string env fda_reply ai_reply w =
     (if py_not (API_KEY env) then (w, Inl (ValueError ''API_KEY''))
      else if py_not (OPENAI_API_KEY env) then (w, Inl (ValueError ''OPENAI_API_KEY''))
      else
        let w1 = send (GET_recall (key_text (API_KEY env))) w in
        case andthen (fetched fda_reply) (\<lambda>rs. process_data sv (DataFrame rs)) of
          Inl e \<Rightarrow> (w1, Inl e)
        | Inr p \<Rightarrow>
            (let w2 = send (POST_chat (key_text (OPENAI_API_KEY env))
                                      (prompt (data_summary to_string p))) w1
             in case generated ai_reply of
                  Inl e \<Rightarrow> (w2, Inl e)
                | Inr report \<Rightarrow> save_report report w2))"

subsection \<open>Reading the input records\<close>

text \<open>
  What the claims say about the input is said with these: the string a record has in a
  field (none if the field is missing or null), the month of a record, the number of
  records with a given key, the number of records with any key, and the distinct keys.
\<close>

definition field_str :: "string \<Rightarrow> recall \<Rightarrow> pystr option" where
  "field_str c r = (case map_of r c of Some (JStr s) \<Rightarrow> Some s | Some JNull \<Rightarrow> None | None \<Rightarrow> None)"

definition month_of :: "recall \<Rightarrow> pystr option" where
  "month_of r = map_option (take 7) (field_str ''event_date_initiated'' r)"


definition records_keyed :: "(recall \<Rightarrow> pystr option) \<Rightarrow> recall list \<Rightarrow> nat" where
  "records_keyed key rs = length (filter (\<lambda>r. key r \<noteq> None) rs)"

definition distinct_keys :: "(recall \<Rightarrow> pystr option) \<Rightarrow> recall list \<Rightarrow> pystr list" where
  "distinct_keys key rs = remdups (List.map_filter key rs)"


text \<open>The position of the first record with key \<open>k\<close>.\<close>

definition first_occurrence :: "(recall \<Rightarrow> pystr option) \<Rightarrow> recall list \<Rightarrow> pystr \<Rightarrow> nat" where
  "first_occurrence key rs k = length (takeWhile (\<lambda>r. key r \<noteq> Some k) rs)"

text \<open>The rows of a table with count \<open>c\<close>, in the table's order.\<close>

definition tied :: "nat \<Rightarrow> table \<Rightarrow> table" where
  "tied c t = filter (\<lambda>e. snd e = c) t"

definition ties_in_first_occurrence_order ::
  "(recall \<Rightarrow> pystr option) \<Rightarrow> recall list \<Rightarrow> table \<Rightarrow> bool" where
  "ties_in_first_occurrence_order key rs t \<longleftrightarrow>
     list_all (\<lambda>c. sorted_wrt (\<lambda>a b. first_occurrence key rs (fst a) < first_occurrence key rs (fst b))
                              (tied c t))
              (remdups (map snd t))"


text \<open>The four tables of a run, and what a run of the processing stage gives: the
  tables or the exception.\<close>

definition tables :: "processed \<Rightarrow> table \<times> table \<times> table \<times> table" where
  "tables p = (root_cause_counts p, monthly_counts p, firm_counts p, status_counts p)"

definition outcome :: "(table \<Rightarrow> table) \<Rightarrow> recall list \<Rightarrow> exn + table \<times> table \<times> table \<times> table" where
  "outcome sv rs = map_sum id tables (process_data sv (DataFrame rs))"

text \<open>The cells of column \<open>c\<close> in the DataFrame of \<open>rs\<close>.\<close>

definition col :: "recall list \<Rightarrow> string \<Rightarrow> cell list" where
  "col rs c = maybe_convert_objects (map (\<lambda>r. cell_of r c) rs)"

subsection \<open>Example records\<close>

definition recall_with :: "string \<Rightarrow> string \<Rightarrow> string \<Rightarrow> string \<Rightarrow> recall" where
  "recall_with d rc firm st =
     [(''event_date_initiated'', JStr (lit d)),
      (''root_cause_description'', JStr (lit rc)),
      (''recalling_firm'', JStr (lit firm)),
      (''recall_status'', JStr (lit st))]"

definition acme :: recall where
  "acme = recall_with ''2024-03-15'' ''Software Error'' ''Acme Devices'' ''Ongoing''
          @ [(''product_description'', JStr (lit ''Infusion pump''))]"


definition incomplete :: recall where
  "incomplete =
     [(''event_date_initiated'', JStr (lit ''2024-05-01'')),
      (''root_cause_description'', JNull),
      (''recall_status'', JNull)]"

definition mixed :: "recall list" where
  "mixed =
     [recall_with ''2024-03-15'' ''Software'' ''Acme'' ''Ongoing'',
      recall_with ''2024-01-20'' ''Design'' ''Bolt'' ''Ongoing'',
      recall_with ''2024-03-02'' ''Design'' ''Acme'' ''Terminated'',
      recall_with ''2024-01-05'' ''Design'' ''Acme'' ''Ongoing'']"

definition twelve_causes :: "recall list" where
  "twelve_causes = map (\<lambda>rc. recall_with ''2024-01-09'' rc ''F'' ''Open'')
     [''a'', ''b'', ''c'', ''d'', ''e'', ''f'', ''g'', ''h'', ''i'', ''j'', ''k'', ''l'']"

definition b_then_a :: "recall list" where
  "b_then_a =
     [recall_with ''2024-02-01'' ''B'' ''Acme'' ''Ongoing'',
      recall_with ''2024-02-01'' ''A'' ''Acme'' ''Ongoing'']"

definition a_then_b :: "recall list" where
  "a_then_b =
     [recall_with ''2024-02-01'' ''A'' ''Acme'' ''Ongoing'',
      recall_with ''2024-02-01'' ''B'' ''Acme'' ''Ongoing'']"

definition undescribed :: recall where
  "undescribed = recall_with ''2024-04-02'' ''Labeling'' ''Bolt Medical'' ''Ongoing''"

definition null_described :: recall where
  "null_described = recall_with ''2024-04-02'' ''Labeling'' ''Bolt Medical'' ''Ongoing''
                    @ [(''product_description'', JNull)]"

definition no_root_cause :: recall where
  "no_root_cause =
     [(''event_date_initiated'', JStr (lit ''2024-03-15'')),
      (''recalling_firm'', JStr (lit ''Acme Devices'')),
      (''recall_status'', JStr (lit ''Ongoing''))]"

definition no_firm :: recall where
  "no_firm =
     [(''event_date_initiated'', JStr (lit ''2024-03-15'')),
      (''root_cause_description'', JStr (lit ''Software Error'')),
      (''recall_status'', JStr (lit ''Ongoing''))]"

definition no_status :: recall where
  "no_status =
     [(''event_date_initiated'', JStr (lit ''2024-03-15'')),
      (''root_cause_description'', JStr (lit ''Software Error'')),
      (''recalling_firm'', JStr (lit ''Acme Devices''))]"

text \<open>
  For the examples of whole runs: a stand-in for pandas' table layout, two credentials,
  replies of the two services, and a world in which nothing has happened yet.
\<close>

definition plain_to_string :: "string \<Rightarrow> table \<Rightarrow> pystr" where
  "plain_to_string c t = concat (map (\<lambda>(k, n). k @ lit '' '' @ str_nat n @ nl) t)"

definition both_keys :: environ where
  "both_keys = \<lparr> API_KEY = Some (lit ''fda-key''), OPENAI_API_KEY = Some (lit ''sk-key'') \<rparr>"

definition no_fda_key :: environ where
  "no_fda_key = \<lparr> API_KEY = None, OPENAI_API_KEY = Some (lit ''sk-key'') \<rparr>"

definition empty_openai_key :: environ where
  "empty_openai_key = \<lparr> API_KEY = Some (lit ''fda-key''), OPENAI_API_KEY = Some [] \<rparr>"

definition fda_ok :: "exn + fda_response" where
  "fda_ok = Inr \<lparr> fda_status = 200, fda_results = Inr [acme, acme, acme] \<rparr>"

definition fda_unavailable :: "exn + fda_response" where
  "fda_unavailable = Inr \<lparr> fda_status = 503, fda_results = Inl JSONDecodeError \<rparr>"

definition ai_ok :: "exn + ai_response" where
  "ai_ok = Inr \<lparr> ai_status = 200,
                 ai_json = Some (Object [(lit ''choices'',
                     Array [Object [(lit ''message'',
                         Object [(lit ''role'', String (lit ''assistant'')),
                                 (lit ''content'', String (lit ''Report''))])]])]) \<rparr>"

definition ai_no_content :: "exn + ai_response" where
  "ai_no_content = Inr \<lparr> ai_status = 200,
                 ai_json = Some (Object [(lit ''choices'',
                     Array [Object [(lit ''message'',
                         Object [(lit ''role'', String (lit ''assistant''))])]])]) \<rparr>"

definition ai_rejected :: "exn + ai_response" where
  "ai_rejected = Inr \<lparr> ai_status = 401, ai_json = Some (Object [(lit ''error'', String (lit ''bad key''))]) \<rparr>"

definition fresh :: world where
  "fresh = \<lparr> requests_sent = [], report_md = None, can_open = True \<rparr>"

section \<open>Lemmas about the DataFrame operations\<close>

lemma str_values_convert: "str_values (maybe_convert_objects xs) = str_values xs"
proof -
  have a: "\<not> list_ex is_Str xs \<Longrightarrow> str_values xs = []"
    by (induction xs rule: str_values.induct) auto
  have b: "str_values (map (\<lambda>_. NaN) xs) = []"
    by (induction xs) auto
  show ?thesis using a b by (simp add: maybe_convert_objects_def)
qed

lemma map_of_keyed: "map_of (map (\<lambda>c. (c, f c)) ks) c = (if c \<in> set ks then Some (f c) else None)"
  by (induction ks) auto

lemma getitem_DataFrame:
  "getitem (DataFrame rs) c =
     (if c \<in> set (columns (DataFrame rs))
      then Inr (maybe_convert_objects (map (\<lambda>r. cell_of r c) rs))
      else Inl (KeyError c))"
  by (simp add: getitem_def DataFrame_def columns_def map_of_keyed comp_def)

lemma columns_DataFrame: "set (columns (DataFrame rs)) = (\<Union>r \<in> set rs. fst ` set r)"
  by (auto simp: columns_def DataFrame_def comp_def)

lemma select_cols_present:
  "set cs \<subseteq> set (columns df) \<Longrightarrow>
   \<exists>sel. select_cols df cs = Inr sel \<and> map fst sel = cs \<and> (\<forall>c \<in> set cs. map_of sel c = map_of (cols df) c)"
proof (induction cs)
  case Nil
  then show ?case by simp
next
  case (Cons c cs)
  then obtain sel where s: "select_cols df cs = Inr sel" "map fst sel = cs"
     "\<forall>c \<in> set cs. map_of sel c = map_of (cols df) c" by auto
  from Cons.prems have "c \<in> fst ` set (cols df)" by (simp add: columns_def)
  then obtain v where v: "map_of (cols df) c = Some v"
    by (metis domD dom_map_of_conv_image_fst)
  show ?case using s v by (auto simp: getitem_def)
qed

lemma getitem_list_existing:
  "\<exists>clean. getitem_list df (existing_cols df) = Inr clean \<and> nrows clean = nrows df \<and>
     (\<forall>c. getitem clean c = (if c \<in> set cols_of_interest then getitem df c else Inl (KeyError c)))"
proof -
  have "set (existing_cols df) \<subseteq> set (columns df)" by (auto simp: existing_cols_def)
  from select_cols_present[OF this] obtain sel where
    s: "select_cols df (existing_cols df) = Inr sel" "map fst sel = existing_cols df"
       "\<forall>c \<in> set (existing_cols df). map_of sel c = map_of (cols df) c" by blast
  have "map_of sel c = (if c \<in> set cols_of_interest then map_of (cols df) c else None)" for c
  proof (cases "c \<in> set (existing_cols df)")
    case True
    then show ?thesis using s(3) by (auto simp: existing_cols_def)
  next
    case False
    then have "c \<notin> fst ` set sel" using s(2) by (metis set_map)
    then have n: "map_of sel c = None" by (simp add: map_of_eq_None_iff)
    from False have "c \<notin> set cols_of_interest \<or> c \<notin> fst ` set (cols df)"
      by (auto simp: existing_cols_def columns_def)
    then have "c \<notin> set cols_of_interest \<or> map_of (cols df) c = None"
      by (simp add: map_of_eq_None_iff)
    then show ?thesis using n by auto
  qed
  then show ?thesis using s(1) by (auto simp: getitem_list_def getitem_def)
qed

lemma map_of_replace_other:
  "k \<noteq> c \<Longrightarrow> map_of (map (\<lambda>(c', v'). if c' = c then (c', v) else (c', v')) xs) k = map_of xs k"
  by (induction xs) auto

lemma getitem_setitem_other: "k \<noteq> c \<Longrightarrow> getitem (setitem df c v) k = getitem df k"
  by (simp add: getitem_def setitem_def map_of_replace_other map_add_def split: option.splits)

lemma andthen_Inr_iff: "andthen x f = Inr y \<longleftrightarrow> (\<exists>v. x = Inr v \<and> f v = Inr y)"
  by (cases x) auto

lemma nrows_setitem: "nrows (setitem df c v) = nrows df"
  by (simp add: setitem_def)

lemma process_data_Inr:
  assumes "process_data sv (DataFrame rs) = Inr p"
  shows "root_cause_counts p = head 10 (sv (groupby_size (col rs ''root_cause_description'')))"
    and "\<exists>month. str_slice7 (col rs ''event_date_initiated'') = Inr month \<and>
           monthly_counts p = sort_values_month (groupby_size month)"
    and "firm_counts p = head 10 (sv (groupby_size (col rs ''recalling_firm'')))"
    and "status_counts p = sv (groupby_size (col rs ''recall_status''))"
    and "nrows (recalls_clean p) = length rs"
proof -
  obtain clean where c: "getitem_list (DataFrame rs) (existing_cols (DataFrame rs)) = Inr clean"
    "nrows clean = nrows (DataFrame rs)"
    "\<And>c. getitem clean c = (if c \<in> set cols_of_interest then getitem (DataFrame rs) c else Inl (KeyError c))"
    using getitem_list_existing by blast
  have g: "getitem clean c = Inr v \<Longrightarrow> v = col rs c" for c v
    using c(3)[of c] by (auto simp: getitem_DataFrame col_def split: if_splits)
  from assms c(1) obtain rc dates month firm status where
    s: "getitem clean ''root_cause_description'' = Inr rc"
       "getitem clean ''event_date_initiated'' = Inr dates"
       "str_slice7 dates = Inr month"
       "getitem clean ''recalling_firm'' = Inr firm"
       "getitem clean ''recall_status'' = Inr status"
       "p = \<lparr> recalls_clean = setitem clean ''month'' month,
             root_cause_counts = head 10 (sv (groupby_size rc)),
             monthly_counts = sort_values_month (groupby_size month),
             firm_counts = head 10 (sv (groupby_size firm)),
             status_counts = sv (groupby_size status) \<rparr>"
    unfolding process_data_def
    by (auto simp: getitem_setitem_other andthen_Inr_iff)
  show "root_cause_counts p = head 10 (sv (groupby_size (col rs ''root_cause_description'')))"
    using s g by simp
  show "\<exists>month. str_slice7 (col rs ''event_date_initiated'') = Inr month \<and>
           monthly_counts p = sort_values_month (groupby_size month)"
    using s g by auto
  show "firm_counts p = head 10 (sv (groupby_size (col rs ''recalling_firm'')))"
    using s g by simp
  show "status_counts p = sv (groupby_size (col rs ''recall_status''))"
    using s g by simp
  show "nrows (recalls_clean p) = length rs"
    using s c(2) by (simp add: nrows_setitem DataFrame_def)
qed

section \<open>Grouping and sorting\<close>

lemma str_values_cells: "str_values (map (\<lambda>r. cell_of r c) rs) = List.map_filter (field_str c) rs"
  by (induction rs) (auto simp: cell_of_def field_str_def List.map_filter_simps split: option.splits jvalue.splits)

lemma str_values_col: "str_values (col rs c) = List.map_filter (field_str c) rs"
  by (simp add: col_def str_values_convert str_values_cells)

lemma str_values_slice:
  "str_values (map (\<lambda>x. case x of Str s \<Rightarrow> Str (take 7 s) | NoneV \<Rightarrow> NaN | NaN \<Rightarrow> NaN) xs)
     = map (take 7) (str_values xs)"
  by (induction xs rule: str_values.induct) auto

lemma map_filter_month: "map (take 7) (List.map_filter (field_str ''event_date_initiated'') rs) = List.map_filter month_of rs"
  by (induction rs) (auto simp: List.map_filter_simps month_of_def split: option.splits)

lemma str_slice7_col:
  "str_slice7 (col rs ''event_date_initiated'') = Inr month \<Longrightarrow> str_values month = List.map_filter month_of rs"
  by (auto simp: str_slice7_def str_values_slice str_values_col map_filter_month split: if_splits)


lemma length_map_filter: "length (List.map_filter key rs) = records_keyed key rs"
  by (induction rs) (auto simp: List.map_filter_simps records_keyed_def split: option.splits)

lemma keys_groupby_size: "map fst (groupby_size cl) = sort (remdups (str_values cl))"
  by (simp add: groupby_size_def Let_def comp_def)

lemma distinct_groupby_size: "distinct (map fst (groupby_size cl))"
  by (simp add: keys_groupby_size)

lemma sorted_groupby_size: "sorted_wrt (<) (map fst (groupby_size cl))"
  by (simp add: keys_groupby_size strict_sorted_iff)

lemma in_groupby_size:
  "(k, n) \<in> set (groupby_size cl) \<longleftrightarrow> k \<in> set (str_values cl) \<and> n = count_list (str_values cl) k"
  by (auto simp: groupby_size_def Let_def)


lemma length_groupby_size: "length (groupby_size cl) = length (remdups (str_values cl))"
  by (simp add: groupby_size_def Let_def)

lemma sum_groupby_size: "sum_list (map snd (groupby_size cl)) = length (str_values cl)"
proof -
  have "sum_list (map snd (groupby_size cl)) = sum_list (map (count_list (str_values cl)) (sort (remdups (str_values cl))))"
    by (simp add: groupby_size_def Let_def comp_def)
  also have "\<dots> = sum (count_list (str_values cl)) (set (str_values cl))"
    by (subst sum_list_distinct_conv_sum_set) auto
  also have "\<dots> = length (str_values cl)"
    by (rule sum_count_set) auto
  finally show ?thesis .
qed


lemma contract_mset: "sort_values_contract sv \<Longrightarrow> mset (sv t) = mset t"
  by (simp add: sort_values_contract_def)

lemma contract_set: "sort_values_contract sv \<Longrightarrow> set (sv t) = set t"
  by (metis contract_mset mset_eq_setD)

lemma contract_length: "sort_values_contract sv \<Longrightarrow> length (sv t) = length t"
  by (metis contract_mset mset_eq_length)

lemma contract_sorted: "sort_values_contract sv \<Longrightarrow> sorted_wrt (\<lambda>a b. snd b \<le> snd a) (sv t)"
  by (simp add: sort_values_contract_def)

lemma contract_distinct: "sort_values_contract sv \<Longrightarrow> distinct (map fst t) \<Longrightarrow> distinct (map fst (sv t))"
proof -
  assume a: "sort_values_contract sv" "distinct (map fst t)"
  then have "mset (map fst (sv t)) = mset (map fst t)" by (simp add: contract_mset)
  then show ?thesis using a(2) by (metis mset_eq_imp_distinct_iff)
qed

lemma contract_sum: "sort_values_contract sv \<Longrightarrow> sum_list (map snd (sv t)) = sum_list (map snd t)"
proof -
  assume "sort_values_contract sv"
  then have "mset (map snd (sv t)) = mset (map snd t)" by (simp add: contract_mset)
  then show ?thesis by (metis sum_mset_sum_list)
qed

lemma stable_contract: "sort_values_contract sort_values_stable"
proof -
  have "sorted_wrt (\<lambda>a b. snd b \<le> snd a) (rev (sort_key snd (rev t)))" for t :: table
  proof -
    have "sorted (map snd (sort_key snd (rev t)))" by simp
    then have "sorted_wrt (\<lambda>a b. snd a \<le> snd b) (sort_key snd (rev t))"
      by (simp add: sorted_wrt_map)
    then show ?thesis by (simp add: sorted_wrt_rev)
  qed
  then show ?thesis by (simp add: sort_values_contract_def sort_values_stable_def)
qed

lemma set_head: "set (head n xs) \<subseteq> set xs"
  by (simp add: head_def set_take_subset)

lemma distinct_head: "distinct (map fst xs) \<Longrightarrow> distinct (map fst (head n xs))"
  by (simp add: head_def flip: take_map)

lemma sorted_wrt_head: "sorted_wrt P xs \<Longrightarrow> sorted_wrt P (head n xs)"
  by (simp add: head_def sorted_wrt_take)

lemma sum_head: "sum_list (map snd (head n xs)) \<le> sum_list (map snd (xs :: table))"
proof -
  have "sum_list (map snd xs) = sum_list (map snd (take n xs)) + sum_list (map snd (drop n xs))"
    by (metis append_take_drop_id map_append sum_list_append)
  then show ?thesis by (simp add: head_def)
qed

lemma set_sort_values_month: "set (sort_values_month t) = set t"
  by (simp add: sort_values_month_def)

lemma length_sort_values_month: "length (sort_values_month t) = length t"
  by (simp add: sort_values_month_def)

lemma distinct_sort_values_month: "distinct (map fst t) \<Longrightarrow> distinct (map fst (sort_values_month t))"
proof -
  assume a: "distinct (map fst t)"
  have "mset (map fst (sort_values_month t)) = mset (map fst t)"
    by (simp add: sort_values_month_def)
  then show ?thesis using a by (metis mset_eq_imp_distinct_iff)
qed

lemma sorted_sort_values_month:
  assumes "distinct (map fst t)"
  shows "sorted_wrt (\<lambda>a b. fst a < fst b) (sort_values_month t)"
proof -
  have "sorted (map fst (sort_values_month t))" by (simp add: sort_values_month_def)
  then have "sorted_wrt (<) (map fst (sort_values_month t))"
    using distinct_sort_values_month[OF assms] by (simp add: strict_sorted_iff)
  then show ?thesis by (simp add: sorted_wrt_map)
qed

lemma sum_sort_values_month: "sum_list (map snd (sort_values_month t)) = sum_list (map snd t)"
proof -
  have "mset (map snd (sort_values_month t)) = mset (map snd t)"
    by (simp add: sort_values_month_def)
  then show ?thesis by (metis sum_mset_sum_list)
qed

section \<open>The four tables\<close>

lemma root_table:
  assumes "sort_values_contract sv" "process_data sv (DataFrame rs) = Inr p"
  shows "set (root_cause_counts p) \<subseteq> set (groupby_size (col rs ''root_cause_description''))"
    and "distinct (map fst (root_cause_counts p))"
    and "sorted_wrt (\<lambda>a b. snd b \<le> snd a) (root_cause_counts p)"
    and "length (root_cause_counts p) = min 10 (length (groupby_size (col rs ''root_cause_description'')))"
    and "sum_list (map snd (root_cause_counts p)) \<le> sum_list (map snd (groupby_size (col rs ''root_cause_description'')))"
proof -
  let ?g = "groupby_size (col rs ''root_cause_description'')"
  have e: "root_cause_counts p = head 10 (sv ?g)" using process_data_Inr(1)[OF assms(2)] .
  show "set (root_cause_counts p) \<subseteq> set ?g"
    using set_head[of 10 "sv ?g"] by (simp add: e contract_set[OF assms(1)])
  show "distinct (map fst (root_cause_counts p))"
    unfolding e by (rule distinct_head, rule contract_distinct[OF assms(1)], rule distinct_groupby_size)
  show "sorted_wrt (\<lambda>a b. snd b \<le> snd a) (root_cause_counts p)"
    unfolding e by (rule sorted_wrt_head, rule contract_sorted[OF assms(1)])
  show "length (root_cause_counts p) = min 10 (length ?g)"
    by (simp add: e head_def contract_length[OF assms(1)] min.commute)
  show "sum_list (map snd (root_cause_counts p)) \<le> sum_list (map snd ?g)"
    using sum_head[of 10 "sv ?g"] by (simp add: e contract_sum[OF assms(1)])
qed

lemma firm_table:
  assumes "sort_values_contract sv" "process_data sv (DataFrame rs) = Inr p"
  shows "set (firm_counts p) \<subseteq> set (groupby_size (col rs ''recalling_firm''))"
    and "distinct (map fst (firm_counts p))"
    and "sorted_wrt (\<lambda>a b. snd b \<le> snd a) (firm_counts p)"
    and "length (firm_counts p) = min 10 (length (groupby_size (col rs ''recalling_firm'')))"
    and "sum_list (map snd (firm_counts p)) \<le> sum_list (map snd (groupby_size (col rs ''recalling_firm'')))"
proof -
  let ?g = "groupby_size (col rs ''recalling_firm'')"
  have e: "firm_counts p = head 10 (sv ?g)" using process_data_Inr(3)[OF assms(2)] .
  show "set (firm_counts p) \<subseteq> set ?g"
    using set_head[of 10 "sv ?g"] by (simp add: e contract_set[OF assms(1)])
  show "distinct (map fst (firm_counts p))"
    unfolding e by (rule distinct_head, rule contract_distinct[OF assms(1)], rule distinct_groupby_size)
  show "sorted_wrt (\<lambda>a b. snd b \<le> snd a) (firm_counts p)"
    unfolding e by (rule sorted_wrt_head, rule contract_sorted[OF assms(1)])
  show "length (firm_counts p) = min 10 (length ?g)"
    by (simp add: e head_def contract_length[OF assms(1)] min.commute)
  show "sum_list (map snd (firm_counts p)) \<le> sum_list (map snd ?g)"
    using sum_head[of 10 "sv ?g"] by (simp add: e contract_sum[OF assms(1)])
qed

lemma status_table:
  assumes "sort_values_contract sv" "process_data sv (DataFrame rs) = Inr p"
  shows "set (status_counts p) = set (groupby_size (col rs ''recall_status''))"
    and "distinct (map fst (status_counts p))"
    and "sorted_wrt (\<lambda>a b. snd b \<le> snd a) (status_counts p)"
    and "length (status_counts p) = length (groupby_size (col rs ''recall_status''))"
    and "sum_list (map snd (status_counts p)) = sum_list (map snd (groupby_size (col rs ''recall_status'')))"
proof -
  let ?g = "groupby_size (col rs ''recall_status'')"
  have e: "status_counts p = sv ?g" using process_data_Inr(4)[OF assms(2)] .
  show "set (status_counts p) = set ?g" by (simp add: e contract_set[OF assms(1)])
  show "distinct (map fst (status_counts p))"
    unfolding e by (rule contract_distinct[OF assms(1)], rule distinct_groupby_size)
  show "sorted_wrt (\<lambda>a b. snd b \<le> snd a) (status_counts p)"
    unfolding e by (rule contract_sorted[OF assms(1)])
  show "length (status_counts p) = length ?g" by (simp add: e contract_length[OF assms(1)])
  show "sum_list (map snd (status_counts p)) = sum_list (map snd ?g)"
    by (simp add: e contract_sum[OF assms(1)])
qed

lemma month_table:
  assumes "process_data sv (DataFrame rs) = Inr p"
  shows "\<exists>month. str_values month = List.map_filter month_of rs \<and>
           set (monthly_counts p) = set (groupby_size month) \<and>
           length (monthly_counts p) = length (groupby_size month) \<and>
           sum_list (map snd (monthly_counts p)) = sum_list (map snd (groupby_size month))"
    and "distinct (map fst (monthly_counts p))"
    and "sorted_wrt (\<lambda>a b. fst a < fst b) (monthly_counts p)"
proof -
  obtain month where m: "str_slice7 (col rs ''event_date_initiated'') = Inr month"
    "monthly_counts p = sort_values_month (groupby_size month)"
    using process_data_Inr(2)[OF assms] by blast
  show "\<exists>month. str_values month = List.map_filter month_of rs \<and>
           set (monthly_counts p) = set (groupby_size month) \<and>
           length (monthly_counts p) = length (groupby_size month) \<and>
           sum_list (map snd (monthly_counts p)) = sum_list (map snd (groupby_size month))"
    using str_slice7_col[OF m(1)]
    by (intro exI[of _ month])
       (simp add: m(2) set_sort_values_month length_sort_values_month sum_sort_values_month)
  show "distinct (map fst (monthly_counts p))"
    unfolding m(2) by (rule distinct_sort_values_month, rule distinct_groupby_size)
  show "sorted_wrt (\<lambda>a b. fst a < fst b) (monthly_counts p)"
    unfolding m(2) by (rule sorted_sort_values_month, rule distinct_groupby_size)
qed

lemma in_map_filter: "k \<in> set (List.map_filter f xs) \<longleftrightarrow> (\<exists>x \<in> set xs. f x = Some k)"
  by (induction xs) (auto simp: List.map_filter_simps split: option.splits)

lemma key_sums:
  assumes "sort_values_contract sv" and "process_data sv (DataFrame rs) = Inr p"
  shows "nrows (recalls_clean p) = length rs
       \<and> sum_list (map snd (status_counts p)) = records_keyed (field_str ''recall_status'') rs
       \<and> sum_list (map snd (monthly_counts p)) = records_keyed month_of rs
       \<and> sum_list (map snd (root_cause_counts p)) \<le> records_keyed (field_str ''root_cause_description'') rs
       \<and> sum_list (map snd (firm_counts p)) \<le> records_keyed (field_str ''recalling_firm'') rs
       \<and> records_keyed (field_str ''recall_status'') rs \<le> length rs
       \<and> records_keyed month_of rs \<le> length rs"
proof -
  obtain month where m: "str_values month = List.map_filter month_of rs"
      "sum_list (map snd (monthly_counts p)) = sum_list (map snd (groupby_size month))"
    using month_table(1)[OF assms(2)] by blast
  have "records_keyed key rs \<le> length rs" for key
    by (simp add: records_keyed_def)
  then show ?thesis
    using root_table(5)[OF assms] firm_table(5)[OF assms] status_table(5)[OF assms] m
      process_data_Inr(5)[OF assms(2)]
    by (simp add: sum_groupby_size str_values_col length_map_filter)
qed

lemma absent_column_fails:
  assumes "c \<in> {''root_cause_description'', ''recalling_firm'', ''recall_status''}"
    and "\<forall>r \<in> set rs. c \<notin> fst ` set r"
  shows "isl (process_data sv (DataFrame rs))"
proof (cases "process_data sv (DataFrame rs)")
  case (Inl e)
  then show ?thesis by simp
next
  case (Inr p)
  obtain clean where cl: "getitem_list (DataFrame rs) (existing_cols (DataFrame rs)) = Inr clean"
    "\<And>c. getitem clean c = (if c \<in> set cols_of_interest then getitem (DataFrame rs) c else Inl (KeyError c))"
    using getitem_list_existing by blast
  from assms(2) have "c \<notin> set (columns (DataFrame rs))"
    by (simp add: columns_DataFrame)
  then have "getitem clean c = Inl (KeyError c)"
    by (simp add: cl(2) getitem_DataFrame)
  moreover from Inr cl(1) have "\<exists>v. getitem clean c = Inr v"
    using assms(1) unfolding process_data_def
    by (auto simp: getitem_setitem_other andthen_Inr_iff)
  ultimately show ?thesis by simp
qed

lemma process_data_returns:
  assumes "set [''root_cause_description'', ''event_date_initiated'', ''recalling_firm'', ''recall_status'']
             \<subseteq> set (columns (DataFrame rs))"
    and "\<not> is_float64 (col rs ''event_date_initiated'')"
  shows "\<exists>p. process_data sv (DataFrame rs) = Inr p"
proof -
  obtain clean where cl: "getitem_list (DataFrame rs) (existing_cols (DataFrame rs)) = Inr clean"
    "\<And>c. getitem clean c = (if c \<in> set cols_of_interest then getitem (DataFrame rs) c else Inl (KeyError c))"
    using getitem_list_existing by blast
  have g: "getitem clean c = Inr (col rs c)"
    if "c \<in> set [''root_cause_description'', ''event_date_initiated'', ''recalling_firm'', ''recall_status'']" for c
  proof -
    from that have "c \<in> set cols_of_interest" by (auto simp: cols_of_interest_def)
    moreover from that assms(1) have "c \<in> set (columns (DataFrame rs))" by blast
    ultimately show ?thesis by (simp add: cl(2) getitem_DataFrame col_def)
  qed
  obtain month where m: "str_slice7 (col rs ''event_date_initiated'') = Inr month"
    using assms(2) by (simp add: str_slice7_def)
  show ?thesis
    unfolding process_data_def
    by (simp add: cl(1) g m getitem_setitem_other)
qed

section \<open>The top ten\<close>




section \<open>The order of the records\<close>

lemma groupby_size_cong:
  assumes "mset (str_values a) = mset (str_values b)"
  shows "groupby_size a = groupby_size b"
proof -
  have s: "set (str_values a) = set (str_values b)" using assms by (rule mset_eq_setD)
  have "sort (remdups (str_values a)) = sort (remdups (str_values b))"
    by (rule sorted_distinct_set_unique) (simp_all add: s)
  moreover have "count_list (str_values a) k = count_list (str_values b) k" for k
    using assms by (metis count_mset)
  ultimately show ?thesis by (simp add: groupby_size_def Let_def)
qed

lemma mset_map_filter:
  "mset rs = mset rs' \<Longrightarrow> mset (List.map_filter f rs) = mset (List.map_filter f rs')"
  by (simp add: List.map_filter_def)

lemma is_float64_col:
  "is_float64 (col rs c) \<longleftrightarrow>
     \<not> (\<exists>r \<in> set rs. is_Str (cell_of r c)) \<and> (\<exists>r \<in> set rs. cell_of r c = NaN)"
proof -
  let ?xs = "map (\<lambda>r. cell_of r c) rs"
  have n: "NaN \<in> set ?xs \<longleftrightarrow> (\<exists>r \<in> set rs. cell_of r c = NaN)" by force
  have e: "list_ex is_Str ?xs \<longleftrightarrow> (\<exists>r \<in> set rs. is_Str (cell_of r c))"
    by (simp add: list_ex_iff)
  show ?thesis
  proof (cases "list_ex is_Str ?xs")
    case True
    then obtain r where r: "r \<in> set rs" "is_Str (cell_of r c)" using e by blast
    then have "cell_of r c \<noteq> NaN" by auto
    with r have "\<not> list_all (\<lambda>x. x = NaN) ?xs" by (auto simp: list_all_iff)
    with True e show ?thesis by (simp add: is_float64_def col_def maybe_convert_objects_def)
  next
    case False
    show ?thesis
    proof (cases "NaN \<in> set ?xs")
      case True
      then have "rs \<noteq> []" by auto
      with True False e n show ?thesis
        by (simp add: is_float64_def col_def maybe_convert_objects_def list_all_iff)
    next
      case nn: False
      then have "\<not> (?xs \<noteq> [] \<and> list_all (\<lambda>x. x = NaN) ?xs)"
        by (cases rs) (auto simp: list_all_iff)
      with nn False e n show ?thesis
        by (simp add: is_float64_def col_def maybe_convert_objects_def)
    qed
  qed
qed

lemma outcome_eq:
  "outcome sv rs =
     (if ''root_cause_description'' \<notin> set (columns (DataFrame rs))
      then Inl (KeyError ''root_cause_description'')
      else if ''event_date_initiated'' \<notin> set (columns (DataFrame rs))
      then Inl (KeyError ''event_date_initiated'')
      else if is_float64 (col rs ''event_date_initiated'') then Inl AttributeError
      else if ''recalling_firm'' \<notin> set (columns (DataFrame rs))
      then Inl (KeyError ''recalling_firm'')
      else if ''recall_status'' \<notin> set (columns (DataFrame rs))
      then Inl (KeyError ''recall_status'')
      else Inr (head 10 (sv (groupby_size (col rs ''root_cause_description''))),
                sort_values_month (groupby_size
                  (map (\<lambda>x. case x of Str s \<Rightarrow> Str (take 7 s) | NoneV \<Rightarrow> NaN | NaN \<Rightarrow> NaN)
                       (col rs ''event_date_initiated''))),
                head 10 (sv (groupby_size (col rs ''recalling_firm''))),
                sv (groupby_size (col rs ''recall_status''))))"
proof -
  obtain clean where cl: "getitem_list (DataFrame rs) (existing_cols (DataFrame rs)) = Inr clean"
    "\<And>c. getitem clean c = (if c \<in> set cols_of_interest then getitem (DataFrame rs) c else Inl (KeyError c))"
    using getitem_list_existing by blast
  have g: "getitem clean c =
             (if c \<in> set (columns (DataFrame rs)) then Inr (col rs c) else Inl (KeyError c))"
    if "c \<in> set cols_of_interest" for c
    using that by (simp add: cl(2) getitem_DataFrame col_def)
  have i: "''root_cause_description'' \<in> set cols_of_interest"
      "''event_date_initiated'' \<in> set cols_of_interest"
      "''recalling_firm'' \<in> set cols_of_interest"
      "''recall_status'' \<in> set cols_of_interest"
    by (simp_all add: cols_of_interest_def)
  show ?thesis
    unfolding outcome_def process_data_def
    by (simp add: cl(1) g[OF i(1)] g[OF i(2)] g[OF i(3)] g[OF i(4)] getitem_setitem_other
        str_slice7_def tables_def)
qed

lemma mset_two: "mset xs = {#a, b#} \<Longrightarrow> xs = [a, b] \<or> xs = [b, a]"
proof -
  assume a: "mset xs = {#a, b#}"
  have "mset xs = mset [a, b]" using a by simp
  then have "length xs = length [a, b]" by (rule mset_eq_length)
  then obtain x y where xs: "xs = [x, y]"
    by (cases xs; cases "tl xs") auto
  with a show ?thesis by (auto simp: add_eq_conv_ex)
qed

section \<open>Evaluating the model on examples\<close>

lemmas eval_defs = process_data_def DataFrame_def existing_cols_def cols_of_interest_def columns_def
  getitem_list_def getitem_def cell_of_def maybe_convert_objects_def str_slice7_def is_float64_def
  setitem_def groupby_size_def head_def lit_def sort_values_month_def

lemma sometimes_fewer:
  assumes "sort_values_contract sv"
  shows "\<exists>p. process_data sv (DataFrame [acme, incomplete]) = Inr p
           \<and> sum_list (map snd (status_counts p)) < nrows (recalls_clean p)"
proof -
  have "\<not> isl (process_data sv (DataFrame [acme, incomplete]))"
    by (simp add: eval_defs acme_def incomplete_def recall_with_def)
  then obtain p where p: "process_data sv (DataFrame [acme, incomplete]) = Inr p"
    by (cases "process_data sv (DataFrame [acme, incomplete])") auto
  have "records_keyed (field_str ''recall_status'') [acme, incomplete] = 1"
    by (simp add: records_keyed_def field_str_def acme_def incomplete_def recall_with_def)
  then have "sum_list (map snd (status_counts p)) = 1" "nrows (recalls_clean p) = 2"
    using key_sums[OF assms p] by simp_all
  then show ?thesis using p by simp
qed

text \<open>
  Whatever the sort does with rows of equal count, it sees only the grouped table, and
  the records \<open>a_then_b\<close> and \<open>b_then_a\<close> give the same grouped table: on one of
  the two inputs the tied keys are not in the order of their first occurrence.
\<close>

lemma one_of_two_orders_fails:
  assumes "sort_values_contract sv"
  shows "(\<exists>p. process_data sv (DataFrame a_then_b) = Inr p
            \<and> \<not> ties_in_first_occurrence_order (field_str ''root_cause_description'') a_then_b
                  (root_cause_counts p))
       \<or> (\<exists>q. process_data sv (DataFrame b_then_a) = Inr q
            \<and> \<not> ties_in_first_occurrence_order (field_str ''root_cause_description'') b_then_a
                  (root_cause_counts q))"
proof -
  let ?g = "[(lit ''A'', 1), (lit ''B'', 1)] :: table"
  have ga: "groupby_size (col a_then_b ''root_cause_description'') = ?g"
    by code_simp
  have gb: "groupby_size (col b_then_a ''root_cause_description'') = ?g"
    by code_simp
  have "\<not> isl (process_data sv (DataFrame a_then_b))"
    by (simp add: eval_defs a_then_b_def recall_with_def)
  then obtain p where p: "process_data sv (DataFrame a_then_b) = Inr p"
    by (cases "process_data sv (DataFrame a_then_b)") auto
  have "\<not> isl (process_data sv (DataFrame b_then_a))"
    by (simp add: eval_defs b_then_a_def recall_with_def)
  then obtain q where q: "process_data sv (DataFrame b_then_a) = Inr q"
    by (cases "process_data sv (DataFrame b_then_a)") auto
  have "mset (sv ?g) = {#(lit ''A'', 1), (lit ''B'', 1)#}"
    using contract_mset[OF assms, of ?g] by simp
  then consider "sv ?g = [(lit ''A'', 1), (lit ''B'', 1)]" | "sv ?g = [(lit ''B'', 1), (lit ''A'', 1)]"
    using mset_two[of "sv ?g"] by blast
  then show ?thesis
  proof cases
    case 1
    then have "root_cause_counts q = [(lit ''A'', 1), (lit ''B'', 1)]"
      using process_data_Inr(1)[OF q] by (simp add: gb head_def)
    moreover have "\<not> ties_in_first_occurrence_order (field_str ''root_cause_description'') b_then_a
         [(lit ''A'', 1), (lit ''B'', 1)]"
      by code_simp
    ultimately show ?thesis using q by simp
  next
    case 2
    then have "root_cause_counts p = [(lit ''B'', 1), (lit ''A'', 1)]"
      using process_data_Inr(1)[OF p] by (simp add: ga head_def)
    moreover have "\<not> ties_in_first_occurrence_order (field_str ''root_cause_description'') a_then_b
         [(lit ''B'', 1), (lit ''A'', 1)]"
      by code_simp
    ultimately show ?thesis using p by simp
  qed
qed

lemma no_sort_keeps_first_occurrence_order:
  assumes "sort_values_contract sv"
  shows "\<exists>rs p. process_data sv (DataFrame rs) = Inr p
           \<and> \<not> ties_in_first_occurrence_order (field_str ''root_cause_description'') rs (root_cause_counts p)"
  using one_of_two_orders_fails[OF assms] by blast

section \<open>The sample lines\<close>

text \<open>
  A description that is a string of length \<open>L\<close> is printed with length 203 if
  \<open>L > 200\<close> and with length \<open>L\<close> otherwise; a row of a DataFrame without the
  column prints the placeholder.
\<close>

lemma length_lit: "length (lit s) = length s"
  by (simp add: lit_def)

lemma sample_desc_string:
  "map_of row ''product_description'' = Some (Str s) \<Longrightarrow>
   sample_desc row = (if length s > 200 then take 200 s @ lit ''...'' else s)"
  by (simp add: sample_desc_def row_get_def)

lemma sample_desc_length:
  "map_of row ''product_description'' = Some (Str s) \<Longrightarrow>
   length (sample_desc row) = (if length s > 200 then 203 else length s)"
  by (simp add: sample_desc_string length_lit)

lemma sample_desc_no_column:
  "map_of row ''product_description'' = None \<Longrightarrow> sample_desc row = lit ''N/A''"
  by (simp add: sample_desc_def row_get_def length_lit)

lemma sample_desc_nan:
  "map_of row ''product_description'' = Some NaN \<Longrightarrow> sample_desc row = lit ''nan''"
  by (simp add: sample_desc_def row_get_def)

lemma null_description_renders_None:
  "map_sum id (sample_lines \<circ> recalls_clean) (process_data sv (DataFrame [acme, null_described]))
     = Inr [lit ''- Infusion pump'' @ nl, lit ''- None'' @ nl]"
  by (simp add: eval_defs acme_def null_described_def recall_with_def
      sample_lines_def sample_line_def sample_desc_def row_get_def iterrows_def df_head_def nl_def)

section \<open>The report file\<close>

lemma report_md_send: "report_md (send r w) = report_md w"
  by (simp add: send_def)

lemma report_md_save_report:
  "report_md (fst (save_report report w)) \<noteq> report_md w \<Longrightarrow> can_open w"
  by (cases report) (auto split: if_splits)

section \<open>The claims\<close>



text \<open>
  C2. The claim: for an empty RecordSet the aggregation succeeds with four empty tables
  and an empty sample, and the summary has a line "Total Recalls: 0". The script does
  otherwise: the DataFrame of no records has no columns, line 86 keeps none, and the
  first \<^verbatim>\<open>groupby\<close> (line 92) raises KeyError. The run ends there, after the
  recall query and before any summary is built.
\<close>

theorem empty_recordset_raises:
  "process_data sv (DataFrame []) = Inl (KeyError ''root_cause_description'')
   \<and> main sv to_string both_keys (Inr \<lparr> fda_status = 200, fda_results = Inr [] \<rparr>) ai_reply fresh
        = (send (GET_recall (lit ''fda-key'')) fresh, Inl (KeyError ''root_cause_description''))"
proof -
  have e: "process_data sv (DataFrame []) = Inl (KeyError ''root_cause_description'')"
    by (simp add: eval_defs)
  have k: "\<not> py_not (API_KEY both_keys)" "\<not> py_not (OPENAI_API_KEY both_keys)"
      "key_text (API_KEY both_keys) = lit ''fda-key''"
    by (simp_all add: both_keys_def lit_def)
  show ?thesis by (simp add: e k main_def fetched_def)
qed

text \<open>
  C3. The claim: when \<^verbatim>\<open>root_cause_description\<close>, \<^verbatim>\<open>recalling_firm\<close> or
  \<^verbatim>\<open>recall_status\<close> is absent from every record, the aggregation does not fail and
  the table is left out. The script does otherwise: line 85 leaves the column out of the
  projection, and the \<^verbatim>\<open>groupby\<close> on that column then raises KeyError. (Lemma
  \<open>absent_column_fails\<close> shows the failure for every such RecordSet.)
\<close>

theorem missing_column_raises_KeyError:
  "process_data sv (DataFrame [no_root_cause]) = Inl (KeyError ''root_cause_description'')
   \<and> process_data sv (DataFrame [no_firm]) = Inl (KeyError ''recalling_firm'')
   \<and> process_data sv (DataFrame [no_status]) = Inl (KeyError ''recall_status'')"
  by (simp add: eval_defs no_root_cause_def no_firm_def no_status_def)

text \<open>
  C4. The claim: a description of length \<open>L\<close> is printed with length 203 if
  \<open>L > 200\<close> and \<open>L\<close> otherwise, and a record with a missing description prints
  as "N/A". The lengths are as claimed (lemma \<open>sample_desc_length\<close>). The placeholder
  is printed only when no record at all has the field (lemma \<open>sample_desc_no_column\<close>):
  when another record has a description, a record without one holds \<^verbatim>\<open>nan\<close> in that
  column and its line reads "- nan" (and a JSON null reads "- None", lemma
  \<open>null_description_renders_None\<close>).
\<close>

theorem missing_description_renders_nan:
  "map_sum id (sample_lines \<circ> recalls_clean) (process_data sv (DataFrame [acme, undescribed]))
     = Inr [lit ''- Infusion pump'' @ nl, lit ''- nan'' @ nl]"
  by (simp add: eval_defs acme_def undescribed_def recall_with_def
      sample_lines_def sample_line_def sample_desc_def row_get_def iterrows_def df_head_def nl_def)

text \<open>
  C5. No report is written unless every earlier stage succeeded. If the contents of the
  report file after the run differ from those before, then both credentials were there,
  the fetch gave records, the aggregation gave tables and the completion gave a reply. If
  the recall database answers with a status other than 200, the run ends with the
  exception of line 57 (the spec's SourceUnavailable) after that one request, with no
  aggregation, no completion request and the file untouched. If the completion request
  raises, is answered with a status from 400 to 599, or its payload has no
  \<^verbatim>\<open>choices[0].message.content\<close> (the spec's GenerationFailed), the run ends with that
  exception and the file untouched.
\<close>

theorem no_report_unless_all_stages_succeed:
  "(report_md (fst (main sv to_string env fda_reply ai_reply w)) \<noteq> report_md w \<longrightarrow>
      \<not> py_not (API_KEY env) \<and> \<not> py_not (OPENAI_API_KEY env)
      \<and> (\<exists>rs p report. fetched fda_reply = Inr rs \<and> process_data sv (DataFrame rs) = Inr p
            \<and> generated ai_reply = Inr report))
   \<and> (\<not> py_not (API_KEY env) \<and> \<not> py_not (OPENAI_API_KEY env)
        \<and> fda_reply = Inr response \<and> fda_status response \<noteq> 200 \<longrightarrow>
      main sv to_string env fda_reply ai_reply w
        = (send (GET_recall (key_text (API_KEY env))) w,
           Inl (FDA_request_failed (fda_status response))))
   \<and> (generated ai_reply = Inl e \<longrightarrow>
      isl (snd (main sv to_string env fda_reply ai_reply w))
      \<and> report_md (fst (main sv to_string env fda_reply ai_reply w)) = report_md w)
   \<and> (\<not> py_not (API_KEY env) \<and> \<not> py_not (OPENAI_API_KEY env)
        \<and> fetched fda_reply = Inr rs \<and> process_data sv (DataFrame rs) = Inr p
        \<and> generated ai_reply = Inl e \<longrightarrow>
      snd (main sv to_string env fda_reply ai_reply w) = Inl e)"
proof (intro conjI impI)
  assume a: "report_md (fst (main sv to_string env fda_reply ai_reply w)) \<noteq> report_md w"
  show "\<not> py_not (API_KEY env)" using a by (auto simp: main_def split: if_splits)
  show "\<not> py_not (OPENAI_API_KEY env)" using a by (auto simp: main_def split: if_splits)
  show "\<exists>rs p report. fetched fda_reply = Inr rs \<and> process_data sv (DataFrame rs) = Inr p
            \<and> generated ai_reply = Inr report"
    using a
    by (auto simp: main_def Let_def report_md_send andthen_Inr_iff split: if_splits sum.splits)
next
  assume "\<not> py_not (API_KEY env) \<and> \<not> py_not (OPENAI_API_KEY env)
        \<and> fda_reply = Inr response \<and> fda_status response \<noteq> 200"
  then show "main sv to_string env fda_reply ai_reply w
        = (send (GET_recall (key_text (API_KEY env))) w,
           Inl (FDA_request_failed (fda_status response)))"
    by (simp add: main_def fetched_def)
next
  assume "generated ai_reply = Inl e"
  then show "isl (snd (main sv to_string env fda_reply ai_reply w))"
    by (simp add: main_def Let_def split: sum.splits)
next
  assume "generated ai_reply = Inl e"
  then show "report_md (fst (main sv to_string env fda_reply ai_reply w)) = report_md w"
    by (simp add: main_def Let_def report_md_send split: sum.splits)
next
  assume "\<not> py_not (API_KEY env) \<and> \<not> py_not (OPENAI_API_KEY env)
        \<and> fetched fda_reply = Inr rs \<and> process_data sv (DataFrame rs) = Inr p
        \<and> generated ai_reply = Inl e"
  then show "snd (main sv to_string env fda_reply ai_reply w) = Inl e"
    by (simp add: main_def Let_def)
qed

theorem no_report_unless_all_stages_succeed_witness:
  "report_md fresh = None
   \<and> report_md (fst (main sort_values_stable plain_to_string both_keys fda_ok ai_ok fresh)) = Some (lit ''Report'')
   \<and> \<not> py_not (API_KEY both_keys) \<and> \<not> py_not (OPENAI_API_KEY both_keys)
   \<and> \<not> isl (fetched fda_ok) \<and> \<not> isl (generated ai_ok)
   \<and> main sort_values_stable plain_to_string both_keys fda_unavailable ai_ok fresh
        = (send (GET_recall (lit ''fda-key'')) fresh, Inl (FDA_request_failed 503))
   \<and> generated ai_no_content = Inl (KeyError ''content'')
   \<and> snd (main sort_values_stable plain_to_string both_keys fda_ok ai_no_content fresh) = Inl (KeyError ''content'')
   \<and> report_md (fst (main sort_values_stable plain_to_string both_keys fda_ok ai_no_content fresh)) = None
   \<and> generated ai_rejected = Inl (HTTPError 401)
   \<and> snd (main sort_values_stable plain_to_string both_keys fda_ok ai_rejected fresh) = Inl (HTTPError 401)
   \<and> report_md (fst (main sort_values_stable plain_to_string both_keys fda_ok ai_rejected fresh)) = None"
proof -
  have f: "report_md fresh = None" by (simp add: fresh_def)
  have k: "\<not> py_not (API_KEY both_keys)" "\<not> py_not (OPENAI_API_KEY both_keys)"
      "key_text (API_KEY both_keys) = lit ''fda-key''"
    by (simp_all add: both_keys_def lit_def)
  have ok: "report_md (fst (main sort_values_stable plain_to_string both_keys fda_ok ai_ok fresh))
              = Some (lit ''Report'')"
    by code_simp
  then have changed: "report_md (fst (main sort_values_stable plain_to_string both_keys fda_ok ai_ok fresh))
              \<noteq> report_md fresh"
    by (simp add: f)
  have u: "fda_unavailable = Inr \<lparr> fda_status = 503, fda_results = Inl JSONDecodeError \<rparr>"
      "fda_status \<lparr> fda_status = 503, fda_results = Inl JSONDecodeError \<rparr> \<noteq> 200"
    by (simp_all add: fda_unavailable_def)
  have g: "generated ai_no_content = Inl (KeyError ''content'')"
      "generated ai_rejected = Inl (HTTPError 401)"
    by (simp_all add: generated_def ai_no_content_def ai_rejected_def lit_def)
  note a = no_report_unless_all_stages_succeed[of sort_values_stable plain_to_string both_keys fda_ok ai_ok fresh]
  note b = no_report_unless_all_stages_succeed[of sort_values_stable plain_to_string both_keys fda_unavailable ai_ok fresh
      "\<lparr> fda_status = 503, fda_results = Inl JSONDecodeError \<rparr>"]
  from a changed obtain rs pr rep where rp: "fetched fda_ok = Inr rs"
      "process_data sort_values_stable (DataFrame rs) = Inr pr" "generated ai_ok = Inr rep"
    by blast
  note c = no_report_unless_all_stages_succeed[of sort_values_stable plain_to_string both_keys fda_ok ai_no_content fresh
      _ "KeyError ''content''" rs pr]
  note d = no_report_unless_all_stages_succeed[of sort_values_stable plain_to_string both_keys fda_ok ai_rejected fresh
      _ "HTTPError 401" rs pr]
  have a': "\<not> isl (fetched fda_ok) \<and> \<not> isl (generated ai_ok)"
    using rp by simp
  have b': "main sort_values_stable plain_to_string both_keys fda_unavailable ai_ok fresh
        = (send (GET_recall (lit ''fda-key'')) fresh, Inl (FDA_request_failed 503))"
    using b k u by simp
  have c': "snd (main sort_values_stable plain_to_string both_keys fda_ok ai_no_content fresh) = Inl (KeyError ''content'')"
     "report_md (fst (main sort_values_stable plain_to_string both_keys fda_ok ai_no_content fresh)) = None"
    using c k g(1) rp f by simp_all
  have d': "snd (main sort_values_stable plain_to_string both_keys fda_ok ai_rejected fresh) = Inl (HTTPError 401)"
     "report_md (fst (main sort_values_stable plain_to_string both_keys fda_ok ai_rejected fresh)) = None"
    using d k g(2) rp f by simp_all
  show ?thesis using f ok k(1,2) a' b' c' d' g by simp
qed

text \<open>
  C6, amended. The claim says that keys of equal count appear in the order of their first
  occurrence in the input. They do not. What holds is this: for every RecordSet, the
  root-cause, firm and status tables (and the month table), the order of keys of equal
  count included, are the same for every reordering of the input records. The order of
  tied keys is what the sort makes of the grouped table, in which \<^verbatim>\<open>groupby\<close>
  has put the keys in ascending order; where a key first occurs in the input plays no
  part. This holds for every sort, stable or not, and also when the run raises: the
  exception is the same.
\<close>

theorem tables_ignore_record_order:
  assumes "mset rs = mset rs'"
  shows "map_sum id tables (process_data sv (DataFrame rs))
           = map_sum id tables (process_data sv (DataFrame rs'))"
proof -
  have s: "set rs = set rs'" using assms by (rule mset_eq_setD)
  have c: "set (columns (DataFrame rs)) = set (columns (DataFrame rs'))"
    by (simp add: columns_DataFrame s)
  have f: "is_float64 (col rs c) = is_float64 (col rs' c)" for c
    by (simp add: is_float64_col s)
  have g: "groupby_size (col rs c) = groupby_size (col rs' c)" for c
    by (rule groupby_size_cong) (simp add: str_values_col mset_map_filter[OF assms])
  have m: "groupby_size (map (\<lambda>x. case x of Str s \<Rightarrow> Str (take 7 s) | NoneV \<Rightarrow> NaN | NaN \<Rightarrow> NaN)
                       (col rs ''event_date_initiated''))
         = groupby_size (map (\<lambda>x. case x of Str s \<Rightarrow> Str (take 7 s) | NoneV \<Rightarrow> NaN | NaN \<Rightarrow> NaN)
                       (col rs' ''event_date_initiated''))"
    by (rule groupby_size_cong)
       (simp add: str_values_slice str_values_col map_filter_month mset_map_filter[OF assms])
  have "outcome sv rs = outcome sv rs'"
    unfolding outcome_eq by (simp only: c f g m)
  then show ?thesis by (simp add: outcome_def)
qed

theorem tables_ignore_record_order_witness:
  "mset a_then_b = mset b_then_a
   \<and> a_then_b \<noteq> b_then_a
   \<and> \<not> isl (process_data sort_values_stable (DataFrame a_then_b))
   \<and> map_sum id tables (process_data sort_values_stable (DataFrame a_then_b))
       = map_sum id tables (process_data sort_values_stable (DataFrame b_then_a))"
proof -
  have m: "mset a_then_b = mset b_then_a"
    by (simp add: a_then_b_def b_then_a_def)
  have n: "a_then_b \<noteq> b_then_a"
    by (simp add: a_then_b_def b_then_a_def recall_with_def lit_def)
  have r: "\<not> isl (process_data sort_values_stable (DataFrame a_then_b))"
    by code_simp
  show ?thesis
    using tables_ignore_record_order[OF m, of sort_values_stable] m n r by simp
qed

text \<open>
  The counterexample to C6 as stated. The records \<open>a_then_b\<close> and \<open>b_then_a\<close>
  have the root causes "A", "B" and "B", "A", one record each, so the two keys are tied.
  Both give the same table, in which the keys are in one order; on one of the two inputs
  this is not the order of first occurrence. So no sort that keeps pandas' contract puts
  tied keys in first-occurrence order on every RecordSet.
\<close>

theorem ties_not_in_first_occurrence_order:
  "\<not> (\<exists>sv. sort_values_contract sv
         \<and> (case process_data sv (DataFrame a_then_b) of
              Inl e \<Rightarrow> True
            | Inr p \<Rightarrow> ties_in_first_occurrence_order (field_str ''root_cause_description'')
                         a_then_b (root_cause_counts p))
         \<and> (case process_data sv (DataFrame b_then_a) of
              Inl e \<Rightarrow> True
            | Inr p \<Rightarrow> ties_in_first_occurrence_order (field_str ''root_cause_description'')
                         b_then_a (root_cause_counts p)))
   \<and> \<not> (\<exists>sv. sort_values_contract sv
         \<and> (\<forall>rs p. process_data sv (DataFrame rs) = Inr p \<longrightarrow>
               ties_in_first_occurrence_order (field_str ''root_cause_description'') rs
                 (root_cause_counts p)))"
proof (intro conjI notI)
  assume "\<exists>sv. sort_values_contract sv
         \<and> (case process_data sv (DataFrame a_then_b) of
              Inl e \<Rightarrow> True
            | Inr p \<Rightarrow> ties_in_first_occurrence_order (field_str ''root_cause_description'')
                         a_then_b (root_cause_counts p))
         \<and> (case process_data sv (DataFrame b_then_a) of
              Inl e \<Rightarrow> True
            | Inr p \<Rightarrow> ties_in_first_occurrence_order (field_str ''root_cause_description'')
                         b_then_a (root_cause_counts p))"
  then obtain sv where sv: "sort_values_contract sv"
      "case process_data sv (DataFrame a_then_b) of
              Inl e \<Rightarrow> True
            | Inr p \<Rightarrow> ties_in_first_occurrence_order (field_str ''root_cause_description'')
                         a_then_b (root_cause_counts p)"
      "case process_data sv (DataFrame b_then_a) of
              Inl e \<Rightarrow> True
            | Inr p \<Rightarrow> ties_in_first_occurrence_order (field_str ''root_cause_description'')
                         b_then_a (root_cause_counts p)"
    by blast
  from one_of_two_orders_fails[OF sv(1)] sv(2,3) show False by auto
next
  assume "\<exists>sv. sort_values_contract sv
         \<and> (\<forall>rs p. process_data sv (DataFrame rs) = Inr p \<longrightarrow>
               ties_in_first_occurrence_order (field_str ''root_cause_description'') rs
                 (root_cause_counts p))"
  then show False using no_sort_keeps_first_occurrence_order by blast
qed

text \<open>
  C7. For every RecordSet that the aggregation accepts, the month table is in strictly
  ascending order of its keys, which have at most seven characters, and the root-cause,
  firm and status tables are in descending order of their counts.
\<close>

theorem tables_sorted:
  assumes "sort_values_contract sv" and "process_data sv (DataFrame rs) = Inr p"
  shows "sorted_wrt (\<lambda>a b. fst a < fst b) (monthly_counts p)
       \<and> list_all (\<lambda>(k, n). length k \<le> 7) (monthly_counts p)
       \<and> sorted_wrt (\<lambda>a b. snd b \<le> snd a) (root_cause_counts p)
       \<and> sorted_wrt (\<lambda>a b. snd b \<le> snd a) (firm_counts p)
       \<and> sorted_wrt (\<lambda>a b. snd b \<le> snd a) (status_counts p)"
proof -
  obtain month where m: "str_values month = List.map_filter month_of rs"
      "set (monthly_counts p) = set (groupby_size month)"
    using month_table(1)[OF assms(2)] by blast
  have "length k \<le> 7" if "(k, n) \<in> set (monthly_counts p)" for k n
  proof -
    from that m have "k \<in> set (List.map_filter month_of rs)"
      by (simp add: in_groupby_size)
    then show ?thesis by (auto simp: in_map_filter month_of_def)
  qed
  then have "list_all (\<lambda>(k, n). length k \<le> 7) (monthly_counts p)"
    by (auto simp: list_all_iff)
  then show ?thesis
    using month_table(3)[OF assms(2)] root_table(3)[OF assms] firm_table(3)[OF assms]
      status_table(3)[OF assms] by simp
qed

theorem tables_sorted_witness:
  "sort_values_contract sort_values_stable
   \<and> (case process_data sort_values_stable (DataFrame mixed) of
        Inl e \<Rightarrow> False
      | Inr p \<Rightarrow>
          monthly_counts p = [(lit ''2024-01'', 2), (lit ''2024-03'', 2)]
        \<and> root_cause_counts p = [(lit ''Design'', 3), (lit ''Software'', 1)]
        \<and> firm_counts p = [(lit ''Acme'', 3), (lit ''Bolt'', 1)]
        \<and> status_counts p = [(lit ''Ongoing'', 3), (lit ''Terminated'', 1)]
        \<and> sorted_wrt (\<lambda>a b. fst a < fst b) (monthly_counts p)
        \<and> list_all (\<lambda>(k, n). length k \<le> 7) (monthly_counts p)
        \<and> sorted_wrt (\<lambda>a b. snd b \<le> snd a) (root_cause_counts p)
        \<and> sorted_wrt (\<lambda>a b. snd b \<le> snd a) (firm_counts p)
        \<and> sorted_wrt (\<lambda>a b. snd b \<le> snd a) (status_counts p))"
proof -
  have "case process_data sort_values_stable (DataFrame mixed) of
          Inl e \<Rightarrow> False
        | Inr p \<Rightarrow>
            monthly_counts p = [(lit ''2024-01'', 2), (lit ''2024-03'', 2)]
          \<and> root_cause_counts p = [(lit ''Design'', 3), (lit ''Software'', 1)]
          \<and> firm_counts p = [(lit ''Acme'', 3), (lit ''Bolt'', 1)]
          \<and> status_counts p = [(lit ''Ongoing'', 3), (lit ''Terminated'', 1)]"
    by code_simp
  then obtain p where p: "process_data sort_values_stable (DataFrame mixed) = Inr p"
      "monthly_counts p = [(lit ''2024-01'', 2), (lit ''2024-03'', 2)]"
      "root_cause_counts p = [(lit ''Design'', 3), (lit ''Software'', 1)]"
      "firm_counts p = [(lit ''Acme'', 3), (lit ''Bolt'', 1)]"
      "status_counts p = [(lit ''Ongoing'', 3), (lit ''Terminated'', 1)]"
    by (cases "process_data sort_values_stable (DataFrame mixed)") auto
  show ?thesis
    using tables_sorted[OF stable_contract p(1)] stable_contract
    by (simp add: p)
qed

text \<open>
  C8. For every RecordSet that the aggregation accepts, the root-cause table and the firm
  table have ten rows, or as many as there are distinct values if these are fewer; the
  status table and the month table have one row for each distinct value, however many.
\<close>

theorem table_sizes:
  assumes "sort_values_contract sv" and "process_data sv (DataFrame rs) = Inr p"
  shows "length (root_cause_counts p) = min 10 (length (distinct_keys (field_str ''root_cause_description'') rs))
       \<and> length (firm_counts p) = min 10 (length (distinct_keys (field_str ''recalling_firm'') rs))
       \<and> length (status_counts p) = length (distinct_keys (field_str ''recall_status'') rs)
       \<and> length (monthly_counts p) = length (distinct_keys month_of rs)"
proof -
  obtain month where m: "str_values month = List.map_filter month_of rs"
      "length (monthly_counts p) = length (groupby_size month)"
    using month_table(1)[OF assms(2)] by blast
  show ?thesis
    using root_table(4)[OF assms] firm_table(4)[OF assms] status_table(4)[OF assms] m
    by (simp add: length_groupby_size str_values_col distinct_keys_def)
qed

theorem table_sizes_witness:
  "sort_values_contract sort_values_stable
   \<and> length (distinct_keys (field_str ''root_cause_description'') twelve_causes) = 12
   \<and> (case process_data sort_values_stable (DataFrame twelve_causes) of
        Inl e \<Rightarrow> False
      | Inr p \<Rightarrow>
          length (root_cause_counts p) = 10
        \<and> length (firm_counts p) = 1
        \<and> length (status_counts p) = 1
        \<and> length (monthly_counts p) = 1)"
proof -
  have "\<not> isl (process_data sort_values_stable (DataFrame twelve_causes))"
    by code_simp
  then obtain p where p: "process_data sort_values_stable (DataFrame twelve_causes) = Inr p"
    by (cases "process_data sort_values_stable (DataFrame twelve_causes)") auto
  have k: "length (distinct_keys (field_str ''root_cause_description'') twelve_causes) = 12"
      "length (distinct_keys (field_str ''recalling_firm'') twelve_causes) = 1"
      "length (distinct_keys (field_str ''recall_status'') twelve_causes) = 1"
      "length (distinct_keys month_of twelve_causes) = 1"
    by code_simp+
  show ?thesis
    using table_sizes[OF stable_contract p] stable_contract k by (simp add: p)
qed

text \<open>
  C9. If either credential is not set or is empty, the run ends with the ValueError of
  line 31 or 33 (the spec's MissingCredential) and the world is as it was: no request has
  been sent and no file written.
\<close>

theorem missing_credential_fails_first:
  assumes "py_not (API_KEY env) \<or> py_not (OPENAI_API_KEY env)"
  shows "main sv to_string env fda_reply ai_reply w
           = (w, Inl (ValueError (if py_not (API_KEY env) then ''API_KEY'' else ''OPENAI_API_KEY'')))"
  using assms by (auto simp: main_def)

theorem missing_credential_fails_first_witness:
  "py_not (API_KEY no_fda_key)
   \<and> main sort_values_stable plain_to_string no_fda_key fda_ok ai_ok fresh
       = (fresh, Inl (ValueError ''API_KEY''))
   \<and> py_not (OPENAI_API_KEY empty_openai_key)
   \<and> main sort_values_stable plain_to_string empty_openai_key fda_ok ai_ok fresh
       = (fresh, Inl (ValueError ''OPENAI_API_KEY''))"
proof -
  have a: "py_not (API_KEY no_fda_key)" by (simp add: no_fda_key_def)
  have b: "py_not (OPENAI_API_KEY empty_openai_key)" "\<not> py_not (API_KEY empty_openai_key)"
    by (simp_all add: empty_openai_key_def lit_def)
  show ?thesis
    using missing_credential_fails_first[of no_fda_key, OF disjI1, OF a]
      missing_credential_fails_first[of empty_openai_key, OF disjI2, OF b(1)] a b
    by simp
qed

text \<open>
  C10. For every RecordSet that the aggregation accepts, the reported total is the number
  of records, while a table counts only the records that have a string in its field: the
  counts of the status table and of the month table add up to the number of such records,
  those of the root-cause and firm tables to at most that number. A record whose field is
  missing or null is in the total and in no row, and there are RecordSets for which the
  counts of a table add up to less than the total.
\<close>

theorem null_keys_excluded:
  assumes "sort_values_contract sv" and "process_data sv (DataFrame rs) = Inr p"
  shows "nrows (recalls_clean p) = length rs
       \<and> sum_list (map snd (status_counts p)) = records_keyed (field_str ''recall_status'') rs
       \<and> sum_list (map snd (monthly_counts p)) = records_keyed month_of rs
       \<and> sum_list (map snd (root_cause_counts p)) \<le> records_keyed (field_str ''root_cause_description'') rs
       \<and> sum_list (map snd (firm_counts p)) \<le> records_keyed (field_str ''recalling_firm'') rs
       \<and> records_keyed (field_str ''recall_status'') rs \<le> length rs
       \<and> records_keyed month_of rs \<le> length rs
       \<and> (\<exists>rs' p'. process_data sv (DataFrame rs') = Inr p'
              \<and> sum_list (map snd (status_counts p')) < nrows (recalls_clean p'))"
  using key_sums[OF assms] sometimes_fewer[OF assms(1)] by blast

theorem null_keys_excluded_witness:
  "sort_values_contract sort_values_stable
   \<and> (case process_data sort_values_stable (DataFrame [acme, incomplete]) of
        Inl e \<Rightarrow> False
      | Inr p \<Rightarrow>
          nrows (recalls_clean p) = 2
        \<and> status_counts p = [(lit ''Ongoing'', 1)]
        \<and> firm_counts p = [(lit ''Acme Devices'', 1)]
        \<and> sum_list (map snd (status_counts p)) = 1
        \<and> sum_list (map snd (monthly_counts p)) = 2
        \<and> sum_list (map snd (root_cause_counts p)) \<le> 1
        \<and> sum_list (map snd (firm_counts p)) \<le> 1)"
proof -
  have "case process_data sort_values_stable (DataFrame [acme, incomplete]) of
          Inl e \<Rightarrow> False
        | Inr p \<Rightarrow> status_counts p = [(lit ''Ongoing'', 1)] \<and> firm_counts p = [(lit ''Acme Devices'', 1)]"
    by code_simp
  then obtain p where p: "process_data sort_values_stable (DataFrame [acme, incomplete]) = Inr p"
      "status_counts p = [(lit ''Ongoing'', 1)]" "firm_counts p = [(lit ''Acme Devices'', 1)]"
    by (cases "process_data sort_values_stable (DataFrame [acme, incomplete])") auto
  have k: "records_keyed (field_str ''recall_status'') [acme, incomplete] = 1"
      "records_keyed month_of [acme, incomplete] = 2"
      "records_keyed (field_str ''root_cause_description'') [acme, incomplete] = 1"
      "records_keyed (field_str ''recalling_firm'') [acme, incomplete] = 1"
    by code_simp+
  show ?thesis
    using null_keys_excluded[OF stable_contract p(1)] stable_contract p k by simp
qed

end
